theory Spec2Isabelle
  imports Main "HOL-Library.Multiset" "HOL-Library.Option_ord"
begin

section \<open>Lytikz: event ingestion, retrieval and the rule-based ask dispatcher\<close>

text \<open>
  A shallow embedding of \<^verbatim>\<open>src/main.py\<close>. Each endpoint is a HOL function over an
  explicit store; an exception is a value of a sum type, and the
  \<^verbatim>\<open>try ... except Exception as e: raise HTTPException(500, str(e))\<close> frame of every
  endpoint is the function \<open>boundary\<close>.
\<close>

subsection \<open>Python strings\<close>

text \<open>
  A Python \<^verbatim>\<open>str\<close> is a \<open>string\<close>; a \<open>char\<close> stands for the code point of the same
  number, so the model covers the code points up to U+00FF. \<^verbatim>\<open>str.lower\<close> maps the
  upper-case letters of that range (A-Z, and U+00C0 to U+00DE without the multiplication
  sign U+00D7) to the letter 32 places further; \<^verbatim>\<open>str.strip\<close> removes the leading and
  trailing white space of that range.
\<close>

definition lower_char :: "char \<Rightarrow> char" where
  "lower_char c =
     (let n = (of_char c :: nat)
      in if (65 \<le> n \<and> n \<le> 90) \<or> (192 \<le> n \<and> n \<le> 222 \<and> n \<noteq> 215)
         then char_of (n + 32) else c)"

definition lower :: "string \<Rightarrow> string" where
  "lower s = map lower_char s"

definition isspace :: "char \<Rightarrow> bool" where
  "isspace c =
     (let n = (of_char c :: nat)
      in (9 \<le> n \<and> n \<le> 13) \<or> (28 \<le> n \<and> n \<le> 32) \<or> n = 133 \<or> n = 160)"

definition strip :: "string \<Rightarrow> string" where
  "strip s = rev (dropWhile isspace (rev (dropWhile isspace s)))"

text \<open>\<^verbatim>\<open>sub in s\<close>: \<open>sub\<close> occurs in \<open>s\<close> as a contiguous block.\<close>

fun startswith :: "string \<Rightarrow> string \<Rightarrow> bool" where
  "startswith s [] = True"
| "startswith [] (p # ps) = False"
| "startswith (c # cs) (p # ps) = (c = p \<and> startswith cs ps)"

fun contains :: "string \<Rightarrow> string \<Rightarrow> bool" where
  "contains sub [] = (sub = [])"
| "contains sub (c # cs) = (startswith (c # cs) sub \<or> contains sub cs)"

text \<open>\<^verbatim>\<open>str(n)\<close> of a natural number, and a number padded with zeros to a width.\<close>

definition digit_char :: "nat \<Rightarrow> char" where
  "digit_char d = char_of (48 + d)"

fun str_nat :: "nat \<Rightarrow> string" where
  "str_nat n = (if n < 10 then [digit_char n] else str_nat (n div 10) @ [digit_char (n mod 10)])"

declare str_nat.simps [simp del]

definition zero_padded :: "nat \<Rightarrow> nat \<Rightarrow> string" where
  "zero_padded w n = replicate (w - length (str_nat n)) (CHR ''0'') @ str_nat n"

definition hex_char :: "nat \<Rightarrow> char" where
  "hex_char d = (if d < 10 then char_of (48 + d) else char_of (87 + d))"

fun hex_digits :: "nat \<Rightarrow> nat \<Rightarrow> string" where
  "hex_digits 0 n = []"
| "hex_digits (Suc w) n = hex_digits w (n div 16) @ [hex_char (n mod 16)]"

subsection \<open>Instants\<close>

text \<open>
  A \<^verbatim>\<open>datetime\<close>: the calendar fields, and the offset from UTC in seconds when the
  value is aware (\<open>None\<close> for a naive one). The ranges that Python's class enforces on
  the fields are not checked again. \<^verbatim>\<open>datetime.isoformat()\<close> prints
  \<^verbatim>\<open>YYYY-MM-DDTHH:MM:SS\<close>, then the microseconds when they are not zero, then the offset
  of an aware value.
\<close>

record datetime =
  year :: nat
  month :: nat
  day :: nat
  hour :: nat
  minute :: nat
  second :: nat
  microsecond :: nat
  utcoffset :: "int option"

definition format_offset :: "int \<Rightarrow> string" where
  "format_offset off =
     (let a = nat \<bar>off\<bar>
      in (if off < 0 then ''-'' else ''+'')
         @ zero_padded 2 (a div 3600) @ '':'' @ zero_padded 2 ((a mod 3600) div 60)
         @ (if a mod 60 = 0 then [] else '':'' @ zero_padded 2 (a mod 60)))"

definition isoformat :: "datetime \<Rightarrow> string" where
  "isoformat t =
     zero_padded 4 (year t) @ ''-'' @ zero_padded 2 (month t) @ ''-'' @ zero_padded 2 (day t)
     @ ''T'' @ zero_padded 2 (hour t) @ '':'' @ zero_padded 2 (minute t)
     @ '':'' @ zero_padded 2 (second t)
     @ (if microsecond t = 0 then [] else ''.'' @ zero_padded 6 (microsecond t))
     @ (case utcoffset t of None \<Rightarrow> [] | Some off \<Rightarrow> format_offset off)"

text \<open>
  The store orders instants by their place on the UTC time line; a naive value is read
  as UTC. \<open>days_from_civil\<close> counts the days from 1970-01-01 in the proleptic Gregorian
  calendar.
\<close>

definition days_from_civil :: "int \<Rightarrow> int \<Rightarrow> int \<Rightarrow> int" where
  "days_from_civil y m d =
     (let y' = (if m \<le> 2 then y - 1 else y);
          era = y' div 400;
          yoe = y' - era * 400;
          doy = (153 * ((m + 9) mod 12) + 2) div 5 + d - 1;
          doe = yoe * 365 + yoe div 4 - yoe div 100 + doy
      in era * 146097 + doe - 719468)"

definition utc_micros :: "datetime \<Rightarrow> int" where
  "utc_micros t =
     ((days_from_civil (int (year t)) (int (month t)) (int (day t)) * 86400
       + int (hour t) * 3600 + int (minute t) * 60 + int (second t)
       - (case utcoffset t of None \<Rightarrow> 0 | Some off \<Rightarrow> off)) * 1000000)
     + int (microsecond t)"

subsection \<open>Documents\<close>

text \<open>
  The values of a document: JSON values and instants (floating-point numbers are left
  out). A Python \<^verbatim>\<open>dict\<close> is an association list with distinct keys, in insertion
  order.
\<close>

datatype pyval =
    VNull
  | VBool bool
  | VInt int
  | VStr string
  | VDate datetime
  | VList "pyval list"
  | VDict "(string \<times> pyval) list"

type_synonym dict = "(string \<times> pyval) list"

text \<open>\<^verbatim>\<open>d.get(k)\<close> and \<^verbatim>\<open>d[k] = v\<close> (an existing key keeps its place, a new key goes last).\<close>

definition dict_get :: "dict \<Rightarrow> string \<Rightarrow> pyval option" where
  "dict_get d k = map_of d k"

fun dict_set :: "dict \<Rightarrow> string \<Rightarrow> pyval \<Rightarrow> dict" where
  "dict_set [] k v = [(k, v)]"
| "dict_set ((k', v') # d) k v = (if k' = k then (k, v) # d else (k', v') # dict_set d k v)"

text \<open>
  The store's native identifier, an \<^verbatim>\<open>ObjectId\<close> of 96 bits, as the number those bits
  spell; \<^verbatim>\<open>str\<close> of it is its 24 hexadecimal digits (the lowest 24 of the number).
\<close>

datatype objectid = ObjectId nat

fun str_oid :: "objectid \<Rightarrow> string" where
  "str_oid (ObjectId n) = hex_digits 24 n"

text \<open>
  A document as the driver hands it to the program: the entry \<^verbatim>\<open>"_id"\<close>, which alone
  holds the native identifier type, is the field \<open>native_id\<close> (\<open>None\<close> when the dict has
  no such key), and \<open>entries\<close> are the other entries.
\<close>

record pydoc =
  native_id :: "objectid option"
  entries :: dict

subsection \<open>Events and the store\<close>

text \<open>
  \<^verbatim>\<open>class IngestEventPayload(BaseModel)\<close>. The class \<^verbatim>\<open>Event\<close> of \<^verbatim>\<open>schemas.py\<close> has the
  same four fields (section 3 of the specification), so one record type serves both.
\<close>

record event_rec =
  event :: string
  user_id :: "string option"
  properties :: dict
  timestamp :: "datetime option"

text \<open>A stored document of the collection \<^verbatim>\<open>"event"\<close>: an event and its identifier.\<close>

record event_doc = event_rec +
  oid :: objectid

text \<open>
  The store: the documents of the collection \<^verbatim>\<open>"event"\<close> (the only collection the
  program names) in insertion order, the number the next identifier is made from, and
  \<open>failure\<close>: when it is \<open>Some msg\<close> the store is unreachable and every operation on it
  raises an exception whose text is \<open>msg\<close>. The documents are events, which is what
  ingestion, the only writer, inserts. An instant is kept as it was inserted: the
  driver's own encoding of instants (in UTC, to the millisecond) is not modelled.
\<close>

record store =
  failure :: "string option"
  events :: "event_doc list"
  next_oid :: nat

datatype py_exception = PyException string

fun str_exc :: "py_exception \<Rightarrow> string" where
  "str_exc (PyException msg) = msg"

text \<open>The document the driver returns for a stored event.\<close>

definition opt_str :: "string option \<Rightarrow> pyval" where
  "opt_str s = (case s of None \<Rightarrow> VNull | Some u \<Rightarrow> VStr u)"

definition to_pydoc :: "event_doc \<Rightarrow> pydoc" where
  "to_pydoc e =
     \<lparr> native_id = Some (oid e),
       entries =
         [ (''event'', VStr (event e)),
           (''user_id'', opt_str (user_id e)),
           (''properties'', VDict (properties e)),
           (''timestamp'', case timestamp e of None \<Rightarrow> VNull | Some t \<Rightarrow> VDate t) ] \<rparr>"

subsection \<open>The store adapter\<close>

text \<open>
  Modelled from the spec: \<^verbatim>\<open>create_document\<close> of \<^verbatim>\<open>database.py\<close>, which is not among
  the sources. Section 4.2: insert appends one document and returns a unique opaque
  identifier (here as the string the endpoint returns); it fails when the store is
  unreachable.
\<close>

definition create_document :: "store \<Rightarrow> event_rec \<Rightarrow> (py_exception + string) \<times> store" where
  "create_document st evt =
     (case failure st of
        Some msg \<Rightarrow> (Inl (PyException msg), st)
      | None \<Rightarrow>
          (let i = ObjectId (next_oid st)
           in (Inr (str_oid i),
               st\<lparr> events := events st @
                     [\<lparr> event = event evt, user_id = user_id evt, properties = properties evt,
                        timestamp = timestamp evt, oid = i \<rparr>],
                   next_oid := Suc (next_oid st) \<rparr>)))"

text \<open>
  Modelled from the spec: \<^verbatim>\<open>get_documents\<close> of \<^verbatim>\<open>database.py\<close>, which is not among the
  sources. Section 4.2: find returns up to \<open>limit\<close> documents matching the filter, an
  exact-match map over the fields, in the store's own order; it fails when the store is
  unreachable.
\<close>

definition matches :: "dict \<Rightarrow> pydoc \<Rightarrow> bool" where
  "matches filt doc = list_all (\<lambda>(k, v). dict_get (entries doc) k = Some v) filt"

definition get_documents :: "store \<Rightarrow> dict \<Rightarrow> int \<Rightarrow> py_exception + pydoc list" where
  "get_documents st filt lim =
     (case failure st of
        Some msg \<Rightarrow> Inl (PyException msg)
      | None \<Rightarrow> Inr (take (nat lim) (filter (matches filt) (map to_pydoc (events st)))))"

text \<open>
  The driver's collection handle, \<^verbatim>\<open>collection = db["event"]\<close>, and the three
  operations \<^verbatim>\<open>ask_question\<close> calls on it. An unreachable store raises; the endpoint
  does nothing between obtaining the handle and its one call on it, so the model raises
  where the handle is obtained.
\<close>

definition collection :: "store \<Rightarrow> py_exception + event_doc list" where
  "collection st =
     (case failure st of Some msg \<Rightarrow> Inl (PyException msg) | None \<Rightarrow> Inr (events st))"

text \<open>\<^verbatim>\<open>count_documents(filt)\<close>: the number of documents matching the filter.\<close>

definition count_documents :: "event_doc list \<Rightarrow> dict \<Rightarrow> nat" where
  "count_documents coll filt = length (filter (matches filt) (map to_pydoc coll))"

text \<open>
  A descending sort. The store does not say in which order it returns documents that tie
  on the sort key; the model keeps the later one first.
\<close>

definition sort_desc :: "('a \<Rightarrow> 'k::linorder) \<Rightarrow> 'a list \<Rightarrow> 'a list" where
  "sort_desc key xs = rev (sort_key key xs)"

text \<open>
  \<^verbatim>\<open>aggregate([{"$group": {"_id": "$f", "count": {"$sum": 1}}}, {"$sort": {"count": -1}},
  {"$limit": n}])\<close>: one row per value of the field \<open>f\<close> (a document without the field
  counts under null) with the number of documents that have it, the rows sorted by that
  number, largest first, and the first \<open>n\<close> of them kept. A row is the pair of its
  \<^verbatim>\<open>"_id"\<close> and its \<^verbatim>\<open>"count"\<close>.
\<close>

definition group_key :: "string \<Rightarrow> event_doc \<Rightarrow> pyval" where
  "group_key f e = (case dict_get (entries (to_pydoc e)) f of None \<Rightarrow> VNull | Some v \<Rightarrow> v)"

definition group_count :: "string \<Rightarrow> event_doc list \<Rightarrow> (pyval \<times> nat) list" where
  "group_count f coll =
     map (\<lambda>k. (k, length (filter (\<lambda>e. group_key f e = k) coll))) (remdups (map (group_key f) coll))"

definition aggregate :: "event_doc list \<Rightarrow> string \<Rightarrow> nat \<Rightarrow> (pyval \<times> nat) list" where
  "aggregate coll f n = take n (sort_desc snd (group_count f coll))"

text \<open>
  \<^verbatim>\<open>find({}, {"event": 1, "user_id": 1, "timestamp": 1}).sort("timestamp", -1).limit(20)\<close>:
  the documents ordered by their timestamp, latest first (one without a timestamp comes
  after every one with), the first \<open>n\<close> of them, each cut down to its identifier and the
  projected fields.
\<close>

definition timestamp_key :: "event_doc \<Rightarrow> int option" where
  "timestamp_key e = map_option utc_micros (timestamp e)"

definition project :: "string list \<Rightarrow> pydoc \<Rightarrow> pydoc" where
  "project keys doc = doc\<lparr> entries := filter (\<lambda>(k, v). k \<in> set keys) (entries doc) \<rparr>"

definition find_recent :: "event_doc list \<Rightarrow> string list \<Rightarrow> nat \<Rightarrow> pydoc list" where
  "find_recent coll keys n = map (project keys \<circ> to_pydoc) (take n (sort_desc timestamp_key coll))"

subsection \<open>The endpoints' replies\<close>

text \<open>
  An endpoint replies with its value or with an error: the \<^verbatim>\<open>HTTPException\<close> it raises
  (status code and detail), or the framework's rejection of a request that does not fit
  the declared parameters (status 422), which happens before the endpoint's body runs.
\<close>

datatype http_error = HTTPException nat string | RequestValidationError

text \<open>\<^verbatim>\<open>except Exception as e: raise HTTPException(status_code=500, detail=str(e))\<close>\<close>

definition boundary :: "py_exception + 'a \<Rightarrow> http_error + 'a" where
  "boundary r = (case r of Inl e \<Rightarrow> Inl (HTTPException 500 (str_exc e)) | Inr x \<Rightarrow> Inr x)"

subsection \<open>Ingestion\<close>

text \<open>
  Modelled from the spec: the class \<^verbatim>\<open>Event\<close> of \<^verbatim>\<open>schemas.py\<close>, which is not among the
  sources. Section 4.1: the event name must be a non-empty string, an empty value is an
  input validation failure; the other fields are taken as they are.
\<close>

definition Event :: "event_rec \<Rightarrow> py_exception + event_rec" where
  "Event p =
     (if event p = [] then Inl (PyException ''validation error for Event: event is empty'')
      else Inr p)"

text \<open>
  The request body of \<^verbatim>\<open>POST /api/events\<close> before validation, and the framework's
  construction of \<^verbatim>\<open>IngestEventPayload\<close> from it: \<^verbatim>\<open>event: str\<close> is required,
  \<^verbatim>\<open>properties\<close> defaults to the empty dict, the other two fields to \<^verbatim>\<open>None\<close>.
\<close>

record ingest_body =
  body_event :: "string option"
  body_user_id :: "string option"
  body_properties :: "dict option"
  body_timestamp :: "datetime option"

definition IngestEventPayload :: "ingest_body \<Rightarrow> event_rec option" where
  "IngestEventPayload b =
     (case body_event b of
        None \<Rightarrow> None
      | Some e \<Rightarrow>
          Some \<lparr> event = e, user_id = body_user_id b,
                 properties = (case body_properties b of None \<Rightarrow> [] | Some p \<Rightarrow> p),
                 timestamp = body_timestamp b \<rparr>)"

text \<open>
  \<^verbatim>\<open>ingest_event\<close>. The class \<^verbatim>\<open>Event\<close> is the parameter \<open>mk_event\<close>; \<open>clock\<close> is what the
  process clock shows when \<^verbatim>\<open>datetime.now(timezone.utc)\<close> is called, an aware value at
  offset zero. The store is returned with the reply.
\<close>

definition now_utc :: "datetime \<Rightarrow> datetime" where
  "now_utc clock = clock\<lparr> utcoffset := Some 0 \<rparr>"

definition ingest_event ::
  "(event_rec \<Rightarrow> py_exception + event_rec) \<Rightarrow> datetime \<Rightarrow> store \<Rightarrow> event_rec
     \<Rightarrow> (http_error + dict) \<times> store" where
  "ingest_event mk_event clock st payload =
     (case mk_event payload of
        Inl e \<Rightarrow> (Inl (HTTPException 500 (str_exc e)), st)
      | Inr evt \<Rightarrow>
          (let evt' = (if timestamp evt = None then evt\<lparr> timestamp := Some (now_utc clock) \<rparr>
                       else evt)
           in case create_document st evt' of
                (Inl e, st') \<Rightarrow> (Inl (HTTPException 500 (str_exc e)), st')
              | (Inr inserted_id, st') \<Rightarrow>
                  (Inr [(''status'', VStr ''ok''), (''id'', VStr inserted_id)], st')))"

definition post_api_events ::
  "(event_rec \<Rightarrow> py_exception + event_rec) \<Rightarrow> datetime \<Rightarrow> store \<Rightarrow> ingest_body
     \<Rightarrow> (http_error + dict) \<times> store" where
  "post_api_events mk_event clock st body =
     (case IngestEventPayload body of
        None \<Rightarrow> (Inl RequestValidationError, st)
      | Some payload \<Rightarrow> ingest_event mk_event clock st payload)"

subsection \<open>Listing and querying\<close>

text \<open>
  \<^verbatim>\<open>normalize\<close>, the local function of \<^verbatim>\<open>list_events\<close> and of \<^verbatim>\<open>query_events\<close> (the two
  bodies differ in a branch that does nothing).
\<close>

definition iso_value :: "pyval \<Rightarrow> pyval" where
  "iso_value v = (case v of VDate t \<Rightarrow> VStr (isoformat t) | _ \<Rightarrow> v)"

definition normalize :: "pydoc \<Rightarrow> pydoc" where
  "normalize doc =
     (let d = (case native_id doc of
                 None \<Rightarrow> doc
               | Some i \<Rightarrow> doc\<lparr> native_id := None,
                                entries := dict_set (entries doc) ''id'' (VStr (str_oid i)) \<rparr>)
      in d\<lparr> entries := map (\<lambda>(k, v). (k, iso_value v)) (entries d) \<rparr>)"

definition list_events :: "store \<Rightarrow> int \<Rightarrow> http_error + pydoc list" where
  "list_events st lim =
     boundary (case get_documents st [] lim of
                 Inl e \<Rightarrow> Inl e
               | Inr docs \<Rightarrow> Inr (map normalize docs))"

text \<open>
  \<^verbatim>\<open>limit: int = Query(50, ge=1, le=500)\<close>: the route with its query parameter, \<open>None\<close>
  when the request gives none.
\<close>

definition get_api_events :: "store \<Rightarrow> int option \<Rightarrow> http_error + pydoc list" where
  "get_api_events st limit_param =
     (case limit_param of
        None \<Rightarrow> list_events st 50
      | Some n \<Rightarrow> if 1 \<le> n \<and> n \<le> 500 then list_events st n else Inl RequestValidationError)"

text \<open>\<^verbatim>\<open>class QueryPayload(BaseModel)\<close>, and its construction from a request body.\<close>

record query_payload =
  query_filter :: "dict option"
  limit :: int

definition QueryPayload :: "dict option \<Rightarrow> int option \<Rightarrow> query_payload" where
  "QueryPayload body_filter body_limit =
     \<lparr> query_filter = body_filter,
       limit = (case body_limit of None \<Rightarrow> 100 | Some n \<Rightarrow> n) \<rparr>"

definition query_events :: "store \<Rightarrow> query_payload \<Rightarrow> http_error + pydoc list" where
  "query_events st payload =
     boundary (let filt = (case query_filter payload of
                             None \<Rightarrow> []
                           | Some f \<Rightarrow> if f = [] then [] else f)
               in case get_documents st filt (limit payload) of
                    Inl e \<Rightarrow> Inl e
                  | Inr docs \<Rightarrow> Inr (map normalize docs))"

subsection \<open>Asking\<close>

text \<open>
  \<^verbatim>\<open>class AskPayload(BaseModel)\<close>; its field \<^verbatim>\<open>event\<close> is \<open>event_filter\<close> here, the name
  \<open>event\<close> being the event record's. A reply is \<^verbatim>\<open>{"answer", "count"}\<close> or
  \<^verbatim>\<open>{"answer", "items"}\<close>.
\<close>

record ask_payload =
  question :: string
  event_filter :: "string option"

datatype ask_reply = AnswerCount string nat | AnswerItems string "pydoc list"

text \<open>The truth value Python gives an optional string: \<^verbatim>\<open>None\<close> and \<^verbatim>\<open>""\<close> are false.\<close>

definition truthy :: "string option \<Rightarrow> bool" where
  "truthy s = (case s of None \<Rightarrow> False | Some x \<Rightarrow> x \<noteq> [])"

definition plain_dict :: "dict \<Rightarrow> pydoc" where
  "plain_dict d = \<lparr> native_id = None, entries = d \<rparr>"

text \<open>
  The body of the loop over the recent documents:
  \<^verbatim>\<open>r["id"] = str(r.pop("_id"))\<close>, which raises \<^verbatim>\<open>KeyError\<close> on a dict without the key,
  then the timestamp, when it is an instant, replaced by its ISO string.
\<close>

definition recent_item :: "pydoc \<Rightarrow> py_exception + pydoc" where
  "recent_item r =
     (case native_id r of
        None \<Rightarrow> Inl (PyException (CHR 0x27 # ''_id'' @ [CHR 0x27]))
      | Some i \<Rightarrow>
          (let r1 = r\<lparr> native_id := None,
                       entries := dict_set (entries r) ''id'' (VStr (str_oid i)) \<rparr>
           in Inr (case dict_get (entries r1) ''timestamp'' of
                     Some (VDate t) \<Rightarrow>
                       r1\<lparr> entries := dict_set (entries r1) ''timestamp'' (VStr (isoformat t)) \<rparr>
                   | _ \<Rightarrow> r1)))"

fun for_each :: "('a \<Rightarrow> py_exception + 'b) \<Rightarrow> 'a list \<Rightarrow> py_exception + 'b list" where
  "for_each f [] = Inr []"
| "for_each f (x # xs) =
     (case f x of
        Inl e \<Rightarrow> Inl e
      | Inr y \<Rightarrow> (case for_each f xs of Inl e \<Rightarrow> Inl e | Inr ys \<Rightarrow> Inr (y # ys)))"

definition ask_question :: "store \<Rightarrow> ask_payload \<Rightarrow> http_error + ask_reply" where
  "ask_question st payload =
     boundary
       (let q = strip (lower (question payload))
        in case collection st of
             Inl e \<Rightarrow> Inl e
           | Inr coll \<Rightarrow>
               if contains ''total'' q
                  \<or> contains ''how many'' q
                    \<and> (contains ''event'' q \<or> truthy (event_filter payload))
               then
                 (let filt = (case event_filter payload of
                                None \<Rightarrow> []
                              | Some e \<Rightarrow> if e \<noteq> [] then [(''event'', VStr e)] else []);
                      count = count_documents coll filt
                  in Inr (AnswerCount (''Total events: '' @ str_nat count) count))
               else if contains ''by user'' q \<or> contains ''per user'' q
               then
                 (let res = aggregate coll ''user_id'' 20;
                      items = map (\<lambda>r. plain_dict [(''user_id'', fst r), (''count'', VInt (int (snd r)))]) res
                  in Inr (AnswerItems ''Events by user'' items))
               else if contains ''by event'' q \<or> contains ''per event'' q
                       \<or> contains ''events by name'' q
               then
                 (let res = aggregate coll ''event'' 50;
                      items = map (\<lambda>r. plain_dict [(''event'', fst r), (''count'', VInt (int (snd r)))]) res
                  in Inr (AnswerItems ''Events by event name'' items))
               else
                 (let recent = find_recent coll [''event'', ''user_id'', ''timestamp''] 20
                  in case for_each recent_item recent of
                       Inl e \<Rightarrow> Inl e
                     | Inr items \<Rightarrow> Inr (AnswerItems ''Showing recent events'' items)))"

subsection \<open>The replies the specification describes\<close>

text \<open>
  The normalized document field rule of section 6, for a document \<open>d\<close> returned to a
  caller in place of the driver's document \<open>r\<close>: no native identifier, the identifier as
  the string field \<open>id\<close>, every other field of \<open>r\<close> and no further one, an instant as
  its ISO-8601 string and any other value as it is.
\<close>

definition normalized_from :: "pydoc \<Rightarrow> pydoc \<Rightarrow> bool" where
  "normalized_from r d \<longleftrightarrow>
     native_id d = None
     \<and> (\<exists>i. native_id r = Some i \<and> dict_get (entries d) ''id'' = Some (VStr (str_oid i)))
     \<and> (\<forall>k. k \<noteq> ''id'' \<longrightarrow>
           dict_get (entries d) k
             = (case dict_get (entries r) k of
                  None \<Rightarrow> None
                | Some (VDate t) \<Rightarrow> Some (VStr (isoformat t))
                | Some v \<Rightarrow> Some v))"

text \<open>
  The item of the fallback intent (section 4.5, rule 4) for a stored event: its name, its
  user, its timestamp as an ISO-8601 string, and its identifier as a string.
\<close>

definition recent_view :: "event_doc \<Rightarrow> pydoc" where
  "recent_view e =
     \<lparr> native_id = None,
       entries =
         [ (''event'', VStr (event e)),
           (''user_id'', opt_str (user_id e)),
           (''timestamp'', case timestamp e of None \<Rightarrow> VNull | Some t \<Rightarrow> VStr (isoformat t)),
           (''id'', VStr (str_oid (oid e))) ] \<rparr>"

subsection \<open>Sample data\<close>

text \<open>A store with three events, two of them of one user and one anonymous.\<close>

definition sample_time :: "nat \<Rightarrow> datetime" where
  "sample_time s =
     \<lparr> year = 2024, month = 3, day = 5, hour = 7, minute = 8, second = s,
       microsecond = 0, utcoffset = Some 0 \<rparr>"

definition sample_store :: store where
  "sample_store =
     \<lparr> failure = None,
       events =
         [ \<lparr> event = ''signup'', user_id = Some ''u1'', properties = [],
             timestamp = Some (sample_time 9), oid = ObjectId 0 \<rparr>,
           \<lparr> event = ''signup'', user_id = None, properties = [(''plan'', VStr ''free'')],
             timestamp = Some (sample_time 11), oid = ObjectId 1 \<rparr>,
           \<lparr> event = ''login'', user_id = Some ''u1'', properties = [],
             timestamp = Some (sample_time 10), oid = ObjectId 2 \<rparr> ],
       next_oid = 3 \<rparr>"

definition empty_store :: store where
  "empty_store = \<lparr> failure = None, events = [], next_oid = 0 \<rparr>"

text \<open>A store that cannot be reached, with the text its driver gives the failure.\<close>

definition long_message :: string where
  "long_message =
     ''localhost:27017: [Errno 111] Connection refused (configured timeouts: socketTimeoutMS: 20000.0ms)''"

definition unreachable_store :: store where
  "unreachable_store = \<lparr> failure = Some long_message, events = [], next_oid = 0 \<rparr>"

text \<open>A group key read back as an optional string: the inverse of \<open>opt_str\<close>.\<close>

definition str_opt :: "pyval \<Rightarrow> string option" where
  "str_opt v = (case v of VStr u \<Rightarrow> Some u | _ \<Rightarrow> None)"

section \<open>Properties\<close>

subsection \<open>The boundary and the store operations\<close>

lemma boundary_Inl [simp]: "boundary (Inl e) = Inl (HTTPException 500 (str_exc e))"
  by (simp add: boundary_def)

lemma boundary_Inr [simp]: "boundary (Inr x) = Inr x"
  by (simp add: boundary_def)

lemma collection_reachable: "failure st = None \<Longrightarrow> collection st = Inr (events st)"
  by (simp add: collection_def)

lemma collection_unreachable:
  "failure st = Some msg \<Longrightarrow> collection st = Inl (PyException msg)"
  by (simp add: collection_def)

lemma count_documents_all: "count_documents coll [] = length coll"
  by (simp add: count_documents_def matches_def)

lemma count_documents_event:
  "count_documents coll [(''event'', VStr e)] = length (filter (\<lambda>d. event d = e) coll)"
  by (simp add: count_documents_def matches_def to_pydoc_def dict_get_def filter_map comp_def)

subsection \<open>The substring test\<close>

text \<open>\<open>contains\<close> holds exactly when the text has the pattern as a contiguous block.\<close>

lemma startswith_iff: "startswith s p \<longleftrightarrow> (\<exists>post. s = p @ post)"
  by (induction s p rule: startswith.induct) auto

lemma contains_iff: "contains sub s \<longleftrightarrow> (\<exists>pre post. s = pre @ sub @ post)"
proof (induction s)
  case Nil
  then show ?case by simp
next
  case (Cons c cs)
  show ?case
  proof
    assume "contains sub (c # cs)"
    then consider "startswith (c # cs) sub" | "contains sub cs" by auto
    then show "\<exists>pre post. c # cs = pre @ sub @ post"
    proof cases
      case 1
      then obtain post where "c # cs = sub @ post" by (auto simp add: startswith_iff)
      then have "c # cs = [] @ sub @ post" by simp
      then show ?thesis by blast
    next
      case 2
      with Cons.IH obtain pre post where "cs = pre @ sub @ post" by blast
      then have "c # cs = (c # pre) @ sub @ post" by simp
      then show ?thesis by blast
    qed
  next
    assume "\<exists>pre post. c # cs = pre @ sub @ post"
    then obtain pre post where e: "c # cs = pre @ sub @ post" by blast
    show "contains sub (c # cs)"
    proof (cases pre)
      case Nil
      with e have "startswith (c # cs) sub" by (auto simp add: startswith_iff)
      then show ?thesis by simp
    next
      case (Cons p ps)
      with e have "cs = ps @ sub @ post" by simp
      with Cons.IH have "contains sub cs" by blast
      then show ?thesis by simp
    qed
  qed
qed

subsection \<open>The order of the rules\<close>

text \<open>
  Claim C1. A question whose lower-cased, trimmed text contains both \<open>total\<close> and
  \<open>by user\<close> is answered by the total-count rule, which is tested first: on a reachable
  store the reply is \<open>Total events: n\<close> with the count \<open>n\<close>, on an unreachable one it is
  the error of the boundary, and in neither case is it the by-user reply.
\<close>

theorem ask_total_before_by_user:
  assumes "contains ''total'' (strip (lower (question payload)))"
      and "contains ''by user'' (strip (lower (question payload)))"
  shows "(case failure st of
            None \<Rightarrow>
              (\<exists>n. ask_question st payload
                     = Inr (AnswerCount (''Total events: '' @ str_nat n) n))
          | Some msg \<Rightarrow> ask_question st payload = Inl (HTTPException 500 msg))
         \<and> (\<forall>answer items. ask_question st payload \<noteq> Inr (AnswerItems answer items))"
  using assms
  by (simp add: ask_question_def Let_def collection_def split: option.split)

theorem ask_total_before_by_user_witness:
  "contains ''total'' (strip (lower ''  Total events BY user ''))
   \<and> contains ''by user'' (strip (lower ''  Total events BY user ''))
   \<and> ask_question sample_store \<lparr> question = ''  Total events BY user '', event_filter = None \<rparr>
       = Inr (AnswerCount ''Total events: 3'' 3)"
proof -
  let ?p = "\<lparr> question = ''  Total events BY user '', event_filter = None \<rparr>"
  have h1: "contains ''total'' (strip (lower (question ?p)))"
    by code_simp
  have h2: "contains ''by user'' (strip (lower (question ?p)))"
    by code_simp
  have n: "count_documents (events sample_store) [] = 3"
    by (simp add: count_documents_all sample_store_def)
  have s: "str_nat 3 = ''3''"
    by code_simp
  have "ask_question sample_store ?p = Inr (AnswerCount ''Total events: 3'' 3)"
    using ask_total_before_by_user [OF h1 h2, of sample_store] h1 n s
    by (simp add: ask_question_def Let_def collection_def sample_store_def)
  with h1 h2 show ?thesis by simp
qed

subsection \<open>The total-count rule\<close>

text \<open>
  Claim C2, as amended. On a reachable store the reply is a count exactly when the text
  contains \<open>total\<close>, or contains \<open>how many\<close> and either contains \<open>event\<close> or comes with
  an event filter that is a non-empty string. The count is then the number of events
  whose name is the filter when the filter is a non-empty string, and the number of all
  events otherwise, and the answer is \<open>Total events: \<close> followed by the count.
\<close>

theorem ask_total_rule:
  assumes "failure st = None"
  shows "((\<exists>answer n. ask_question st payload = Inr (AnswerCount answer n))
            \<longleftrightarrow> (contains ''total'' (strip (lower (question payload)))
                 \<or> contains ''how many'' (strip (lower (question payload)))
                   \<and> (contains ''event'' (strip (lower (question payload)))
                      \<or> (\<exists>e. event_filter payload = Some e \<and> e \<noteq> []))))
         \<and> (\<forall>answer n. ask_question st payload = Inr (AnswerCount answer n) \<longrightarrow>
               answer = ''Total events: '' @ str_nat n
               \<and> n = (case event_filter payload of
                        None \<Rightarrow> length (events st)
                      | Some e \<Rightarrow> if e = [] then length (events st)
                                  else length (filter (\<lambda>d. event d = e) (events st))))"
  using assms
  by (auto simp add: ask_question_def Let_def collection_def truthy_def
        count_documents_all count_documents_event for_each.simps
      split: option.splits sum.splits)

text \<open>
  The claim as stated lets any supplied filter trigger the rule. With the filter \<^verbatim>\<open>""\<close>,
  which Python reads as false, the question \<open>how many\<close> falls through to the recent
  events.
\<close>

theorem ask_total_rule_counterexample:
  "contains ''how many'' (strip (lower (question \<lparr> question = ''how many'', event_filter = Some [] \<rparr>)))
   \<and> event_filter \<lparr> question = ''how many'', event_filter = Some [] \<rparr> = Some []
   \<and> ask_question empty_store \<lparr> question = ''how many'', event_filter = Some [] \<rparr>
       = Inr (AnswerItems ''Showing recent events'' [])"
  by code_simp

theorem ask_total_rule_witness:
  "failure sample_store = None
   \<and> ask_question sample_store \<lparr> question = ''How many signup?'', event_filter = Some ''signup'' \<rparr>
       = Inr (AnswerCount ''Total events: 2'' 2)"
proof -
  let ?p = "\<lparr> question = ''How many signup?'', event_filter = Some ''signup'' \<rparr>"
  have f: "failure sample_store = None"
    by (simp add: sample_store_def)
  have q: "contains ''how many'' (strip (lower (question ?p)))"
    by code_simp
  have s: "str_nat 2 = ''2''"
    by code_simp
  have n: "length (filter (\<lambda>d. event d = ''signup'') (events sample_store)) = 2"
    by (simp add: sample_store_def)
  from ask_total_rule [OF f, of ?p] q
  obtain answer k where a: "ask_question sample_store ?p = Inr (AnswerCount answer k)"
    by auto
  with ask_total_rule [OF f, of ?p] n s
  have "answer = ''Total events: 2'' \<and> k = 2"
    by simp
  with a f show ?thesis by simp
qed

subsection \<open>Ingestion\<close>

text \<open>
  Claim C3. A request body without the field \<open>event\<close> is refused by the framework before
  the endpoint runs, and one whose \<open>event\<close> is the empty string is refused when the
  \<open>Event\<close> is built: in both cases the reply is an error and the store is as it was.
\<close>

theorem ingest_rejects_missing_or_empty_event:
  assumes "body_event b = None \<or> body_event b = Some []"
  shows "(\<exists>err. post_api_events Event clock st b = (Inl err, st))
         \<and> (body_event b = None \<longrightarrow>
               post_api_events Event clock st b = (Inl RequestValidationError, st))
         \<and> (body_event b = Some [] \<longrightarrow>
               (\<exists>detail. post_api_events Event clock st b = (Inl (HTTPException 500 detail), st)))"
  using assms
  by (auto simp add: post_api_events_def IngestEventPayload_def ingest_event_def Event_def)

theorem ingest_rejects_missing_or_empty_event_witness:
  "body_event \<lparr> body_event = Some [], body_user_id = Some ''u1'', body_properties = None,
                body_timestamp = None \<rparr> = Some []
   \<and> snd (post_api_events Event (sample_time 30) sample_store
          \<lparr> body_event = Some [], body_user_id = Some ''u1'', body_properties = None,
            body_timestamp = None \<rparr>) = sample_store
   \<and> (\<exists>err. fst (post_api_events Event (sample_time 30) sample_store
          \<lparr> body_event = Some [], body_user_id = Some ''u1'', body_properties = None,
            body_timestamp = None \<rparr>) = Inl err)"
proof -
  let ?b = "\<lparr> body_event = Some [], body_user_id = Some ''u1'', body_properties = None,
              body_timestamp = None \<rparr>"
  have h: "body_event ?b = None \<or> body_event ?b = Some []"
    by simp
  from ingest_rejects_missing_or_empty_event [OF h, of "sample_time 30" sample_store]
  obtain err where
    "post_api_events Event (sample_time 30) sample_store ?b = (Inl err, sample_store)"
    by blast
  then show ?thesis by simp
qed

text \<open>
  Claim C10. When building the \<open>Event\<close> fails, whatever the class checks,
  \<open>ingest_event\<close> replies with the error of the boundary and the store it returns is
  the store it was given: the insert is not reached.
\<close>

theorem ingest_atomic_on_validation_error:
  assumes "mk_event payload = Inl e"
  shows "ingest_event mk_event clock st payload = (Inl (HTTPException 500 (str_exc e)), st)"
  using assms by (simp add: ingest_event_def)

theorem ingest_atomic_on_validation_error_witness:
  "ingest_event (\<lambda>p. Inl (PyException ''1 validation error for Event'')) (sample_time 30)
     sample_store \<lparr> event = ''signup'', user_id = None, properties = [], timestamp = None \<rparr>
   = (Inl (HTTPException 500 ''1 validation error for Event''), sample_store)"
proof -
  have h: "(\<lambda>p::event_rec.
              (Inl (PyException ''1 validation error for Event'') :: py_exception + event_rec))
             \<lparr> event = ''signup'', user_id = None, properties = [], timestamp = None \<rparr>
           = Inl (PyException ''1 validation error for Event'')"
    by simp
  from ingest_atomic_on_validation_error [OF h, of "sample_time 30" sample_store]
  show ?thesis by simp
qed

text \<open>
  Claim C4. When the \<open>Event\<close> is built with the payload's timestamp and the store is
  reachable, ingestion appends exactly one document; its timestamp is the clock's UTC
  reading when the payload has none and the payload's otherwise, so it is never null, and
  a store in which every document has a timestamp stays such a store.
\<close>

theorem ingest_timestamp_never_null:
  assumes "mk_event payload = Inr evt"
      and "timestamp evt = timestamp payload"
      and "failure st = None"
  shows "\<exists>d. events (snd (ingest_event mk_event clock st payload)) = events st @ [d]
             \<and> event d = event evt
             \<and> (timestamp payload = None \<longrightarrow> timestamp d = Some (now_utc clock))
             \<and> (\<forall>t. timestamp payload = Some t \<longrightarrow> timestamp d = Some t)
             \<and> timestamp d \<noteq> None
             \<and> ((\<forall>x \<in> set (events st). timestamp x \<noteq> None)
                  \<longrightarrow> (\<forall>x \<in> set (events (snd (ingest_event mk_event clock st payload))).
                         timestamp x \<noteq> None))"
  using assms
  by (auto simp add: ingest_event_def create_document_def Let_def)

theorem ingest_timestamp_never_null_witness:
  "events (snd (ingest_event Inr (sample_time 30) empty_store
      \<lparr> event = ''signup'', user_id = None, properties = [], timestamp = None \<rparr>))
   = [\<lparr> event = ''signup'', user_id = None, properties = [],
        timestamp = Some (sample_time 30), oid = ObjectId 0 \<rparr>]"
proof -
  let ?p = "\<lparr> event = ''signup'', user_id = None, properties = [], timestamp = None \<rparr>"
  have h1: "(Inr ?p :: py_exception + event_rec) = Inr ?p" by simp
  have h2: "timestamp ?p = timestamp ?p" by simp
  have h3: "failure empty_store = None" by (simp add: empty_store_def)
  from ingest_timestamp_never_null [of Inr, OF h1 h2 h3, of "sample_time 30"]
  obtain d where
    d: "events (snd (ingest_event Inr (sample_time 30) empty_store ?p)) = events empty_store @ [d]"
    by auto
  have "d = \<lparr> event = ''signup'', user_id = None, properties = [],
               timestamp = Some (sample_time 30), oid = ObjectId 0 \<rparr>"
    using d
    by (simp add: ingest_event_def create_document_def empty_store_def now_utc_def
          sample_time_def)
  with d show ?thesis by (simp add: empty_store_def)
qed

subsection \<open>The limits of listing and querying\<close>

text \<open>
  Claim C8. \<open>GET /api/events\<close> refuses every limit below 1 or above 500 (it does not cut
  the limit down to the range), passes every limit from 1 to 500 on unchanged, and uses
  50 when the request gives none. The payload of a query has the limit 100 when the body
  gives none; whatever limit it has is never refused, and on a reachable store the reply
  holds as many documents as match, up to the limit, with no bound on the limit.
\<close>

theorem list_limit_bounds:
  "(\<forall>n. n < 1 \<or> 500 < n \<longrightarrow> get_api_events st (Some n) = Inl RequestValidationError)
   \<and> (\<forall>n. 1 \<le> n \<and> n \<le> 500 \<longrightarrow> get_api_events st (Some n) = list_events st n)
   \<and> get_api_events st None = list_events st 50
   \<and> (\<forall>n. list_events st n \<noteq> Inl RequestValidationError)
   \<and> limit (QueryPayload f None) = 100
   \<and> (\<forall>n. limit (QueryPayload f (Some n)) = n)
   \<and> (\<forall>n. query_events st (QueryPayload f (Some n)) \<noteq> Inl RequestValidationError)
   \<and> (\<forall>n. failure st = None \<longrightarrow>
         (\<exists>items. query_events st (QueryPayload f (Some n)) = Inr items
            \<and> length items
                = min (nat n)
                    (length (filter (matches (case f of None \<Rightarrow> [] | Some m \<Rightarrow> m))
                               (map to_pydoc (events st))))))"
  by (auto simp add: get_api_events_def list_events_def query_events_def QueryPayload_def
        boundary_def get_documents_def Let_def
      split: sum.splits option.splits)

theorem list_limit_bounds_witness:
  "get_api_events sample_store (Some 0) = Inl RequestValidationError
   \<and> get_api_events sample_store (Some 501) = Inl RequestValidationError
   \<and> get_api_events sample_store (Some 1) = list_events sample_store 1
   \<and> get_api_events sample_store (Some 500) = list_events sample_store 500
   \<and> get_api_events sample_store None = list_events sample_store 50
   \<and> limit (QueryPayload None None) = 100
   \<and> (\<exists>items. query_events sample_store (QueryPayload None (Some 100000)) = Inr items
        \<and> length items = 3)"
proof -
  have f: "failure sample_store = None"
    by (simp add: sample_store_def)
  have n: "length (filter (matches []) (map to_pydoc (events sample_store))) = 3"
    by (simp add: matches_def sample_store_def)
  note b = list_limit_bounds [of sample_store None]
  from b have r: "\<forall>n. n < 1 \<or> 500 < n \<longrightarrow>
                     get_api_events sample_store (Some n) = Inl RequestValidationError"
    by blast
  from b have a: "\<forall>n. 1 \<le> n \<and> n \<le> 500 \<longrightarrow>
                     get_api_events sample_store (Some n) = list_events sample_store n"
    by blast
  from b f n have q: "\<forall>n. \<exists>items. query_events sample_store (QueryPayload None (Some n)) = Inr items
                          \<and> length items = min (nat n) 3"
    by simp
  from b have d: "get_api_events sample_store None = list_events sample_store 50
                  \<and> limit (QueryPayload None None) = 100"
    by blast
  from r have r0: "get_api_events sample_store (Some 0) = Inl RequestValidationError"
    by simp
  from r have r501: "get_api_events sample_store (Some 501) = Inl RequestValidationError"
    by simp
  from a have a1: "get_api_events sample_store (Some 1) = list_events sample_store 1"
    by simp
  from a have a500: "get_api_events sample_store (Some 500) = list_events sample_store 500"
    by simp
  from q have "\<exists>items. query_events sample_store (QueryPayload None (Some 100000)) = Inr items
                          \<and> length items = min (nat 100000) 3"
    by (rule spec)
  then have q1: "\<exists>items. query_events sample_store (QueryPayload None (Some 100000)) = Inr items
                          \<and> length items = 3"
    by simp
  from r0 r501 a1 a500 d q1 show ?thesis by blast
qed

subsection \<open>Failures at the boundary\<close>

text \<open>
  Claim C9, as amended. A failure caught at the boundary of the four endpoints, be it the
  unreachable store or the failed construction of the \<open>Event\<close>, is replied to with status
  500 and the whole text of the failure as its detail; every error an endpoint's body
  replies with has status 500.
\<close>

theorem boundary_failure_is_generic:
  "(failure st = Some msg \<longrightarrow>
      list_events st lim = Inl (HTTPException 500 msg)
      \<and> query_events st qp = Inl (HTTPException 500 msg)
      \<and> ask_question st ap = Inl (HTTPException 500 msg)
      \<and> (\<forall>evt. mk_event payload = Inr evt \<longrightarrow>
            ingest_event mk_event clock st payload = (Inl (HTTPException 500 msg), st)))
   \<and> (\<forall>e. mk_event payload = Inl e \<longrightarrow>
         ingest_event mk_event clock st payload = (Inl (HTTPException 500 (str_exc e)), st))
   \<and> (\<forall>err. list_events st lim = Inl err \<or> query_events st qp = Inl err
             \<or> ask_question st ap = Inl err
             \<or> fst (ingest_event mk_event clock st payload) = Inl err
         \<longrightarrow> (\<exists>detail. err = HTTPException 500 detail))"
proof (intro conjI impI allI)
  assume f: "failure st = Some msg"
  show "list_events st lim = Inl (HTTPException 500 msg)"
    using f by (simp add: list_events_def get_documents_def)
  show "query_events st qp = Inl (HTTPException 500 msg)"
    using f by (simp add: query_events_def get_documents_def Let_def)
  show "ask_question st ap = Inl (HTTPException 500 msg)"
    using f by (simp add: ask_question_def collection_def Let_def)
  fix evt assume "mk_event payload = Inr evt"
  then show "ingest_event mk_event clock st payload = (Inl (HTTPException 500 msg), st)"
    using f by (simp add: ingest_event_def create_document_def Let_def)
next
  fix e assume "mk_event payload = Inl e"
  then show "ingest_event mk_event clock st payload = (Inl (HTTPException 500 (str_exc e)), st)"
    by (simp add: ingest_event_def)
next
  fix err
  assume a: "list_events st lim = Inl err \<or> query_events st qp = Inl err
             \<or> ask_question st ap = Inl err
             \<or> fst (ingest_event mk_event clock st payload) = Inl err"
  have b: "\<And>r :: py_exception + 'x. boundary r = Inl err \<Longrightarrow> \<exists>detail. err = HTTPException 500 detail"
    by (auto simp add: boundary_def split: sum.splits)
  from a show "\<exists>detail. err = HTTPException 500 detail"
  proof (elim disjE)
    assume "list_events st lim = Inl err"
    then show ?thesis unfolding list_events_def by (rule b)
  next
    assume "query_events st qp = Inl err"
    then show ?thesis unfolding query_events_def by (rule b)
  next
    assume "ask_question st ap = Inl err"
    then show ?thesis unfolding ask_question_def by (rule b)
  next
    assume "fst (ingest_event mk_event clock st payload) = Inl err"
    then show ?thesis
      by (auto simp add: ingest_event_def Let_def split: sum.splits prod.splits)
  qed
qed

text \<open>
  The claim as stated has the detail truncated. The source shortens a message (to 50
  code points) only in its diagnostic endpoint; the four endpoints return it whole, here
  a message of 97 code points.
\<close>

theorem boundary_failure_is_generic_counterexample:
  "query_events unreachable_store (QueryPayload None None) = Inl (HTTPException 500 long_message)
   \<and> length long_message = 97
   \<and> take 50 long_message \<noteq> long_message"
  by code_simp

theorem boundary_failure_is_generic_witness:
  "failure unreachable_store = Some long_message
   \<and> list_events unreachable_store 10 = Inl (HTTPException 500 long_message)
   \<and> ask_question unreachable_store \<lparr> question = ''total'', event_filter = None \<rparr>
       = Inl (HTTPException 500 long_message)"
proof -
  have f: "failure unreachable_store = Some long_message"
    by (simp add: unreachable_store_def)
  from boundary_failure_is_generic
         [of unreachable_store long_message 10 "QueryPayload None None"
             "\<lparr> question = ''total'', event_filter = None \<rparr>" Inr
             "\<lparr> event = ''signup'', user_id = None, properties = [], timestamp = None \<rparr>"
             "sample_time 30"] f
  show ?thesis by simp
qed

subsection \<open>Sorting and grouping\<close>

lemma mset_sort_desc: "mset (sort_desc key xs) = mset xs"
  by (simp add: sort_desc_def)

lemma set_sort_desc: "set (sort_desc key xs) = set xs"
  by (simp add: sort_desc_def)

lemma length_sort_desc: "length (sort_desc key xs) = length xs"
  by (simp add: sort_desc_def)

lemma sorted_sort_desc: "sorted_wrt (\<lambda>a b. key b \<le> key a) (sort_desc key xs)"
proof -
  have "sorted (map key (sort_key key xs))"
    by (rule sorted_sort_key)
  then have "sorted_wrt (\<lambda>a b. key a \<le> key b) (sort_key key xs)"
    by (simp add: sorted_wrt_map)
  then show ?thesis
    by (simp add: sort_desc_def sorted_wrt_rev)
qed

lemma take_drop_sorted_desc:
  assumes "sorted_wrt (\<lambda>a b. key b \<le> key a) xs"
  shows "\<forall>a \<in> set (take n xs). \<forall>b \<in> set (drop n xs). key b \<le> key a"
proof -
  from assms have "sorted_wrt (\<lambda>a b. key b \<le> key a) (take n xs @ drop n xs)"
    by simp
  then show ?thesis
    unfolding sorted_wrt_append by blast
qed

lemma group_count_keys: "map fst (group_count f coll) = remdups (map (group_key f) coll)"
  by (simp add: group_count_def comp_def)

lemma group_count_member:
  "g \<in> set (group_count f coll) \<Longrightarrow>
     snd g = length (filter (\<lambda>e. group_key f e = fst g) coll)"
  by (auto simp add: group_count_def)

lemma group_key_user_id: "group_key ''user_id'' e = opt_str (user_id e)"
  by (simp add: group_key_def to_pydoc_def dict_get_def)

lemma group_key_event: "group_key ''event'' e = VStr (event e)"
  by (simp add: group_key_def to_pydoc_def dict_get_def)

lemma opt_str_inj: "opt_str a = opt_str b \<longleftrightarrow> a = b"
  by (simp add: opt_str_def split: option.splits)

lemma str_opt_opt_str [simp]: "str_opt (opt_str u) = u"
  by (simp add: str_opt_def opt_str_def split: option.splits)

lemma aggregate_rows:
  "\<exists>rows. aggregate coll f n = take n rows
      \<and> distinct (map fst rows)
      \<and> set (map fst rows) = group_key f ` set coll
      \<and> (\<forall>g \<in> set rows. snd g = length (filter (\<lambda>e. group_key f e = fst g) coll))
      \<and> sorted_wrt (\<lambda>a b. snd b \<le> snd a) rows"
proof -
  let ?rows = "sort_desc snd (group_count f coll)"
  have m: "mset (map fst ?rows) = mset (map fst (group_count f coll))"
    by (simp add: mset_sort_desc)
  have "distinct (map fst (group_count f coll))"
    by (simp add: group_count_keys)
  with m have d: "distinct (map fst ?rows)"
    by (metis mset_eq_imp_distinct_iff)
  from m have "set (map fst ?rows) = set (map fst (group_count f coll))"
    by (rule mset_eq_setD)
  then have s: "set (map fst ?rows) = group_key f ` set coll"
    by (simp add: group_count_keys)
  have c: "\<forall>g \<in> set ?rows. snd g = length (filter (\<lambda>e. group_key f e = fst g) coll)"
    by (simp add: set_sort_desc group_count_member)
  have o: "sorted_wrt (\<lambda>a b. snd b \<le> snd a) ?rows"
    by (rule sorted_sort_desc)
  have "aggregate coll f n = take n ?rows"
    by (simp add: aggregate_def)
  with d s c o show ?thesis by blast
qed

subsection \<open>The by-user rule\<close>

text \<open>
  Claim C6. When the total-count rule does not apply and the text contains \<open>by user\<close> or
  \<open>per user\<close>, the reply on a reachable store holds the first 20 of the groups of the
  events by user: one group per user that occurs, the absent user (null) among them when
  an anonymous event exists, each with the number of that user's events, ordered by that
  number, largest first; an item is \<^verbatim>\<open>{"user_id", "count"}\<close> with null for the absent user.
\<close>

theorem ask_by_user_groups:
  assumes "failure st = None"
      and "\<not> (contains ''total'' (strip (lower (question payload)))
              \<or> contains ''how many'' (strip (lower (question payload)))
                \<and> (contains ''event'' (strip (lower (question payload)))
                   \<or> truthy (event_filter payload)))"
      and "contains ''by user'' (strip (lower (question payload)))
           \<or> contains ''per user'' (strip (lower (question payload)))"
  shows "\<exists>groups.
           ask_question st payload
             = Inr (AnswerItems ''Events by user''
                      (map (\<lambda>g. plain_dict [(''user_id'', opt_str (fst g)),
                                             (''count'', VInt (int (snd g)))])
                           (take 20 groups)))
           \<and> distinct (map fst groups)
           \<and> set (map fst groups) = user_id ` set (events st)
           \<and> (\<forall>g \<in> set groups.
                 snd g = length (filter (\<lambda>e. user_id e = fst g) (events st)))
           \<and> sorted_wrt (\<lambda>a b. snd b \<le> snd a) groups
           \<and> ((\<exists>e \<in> set (events st). user_id e = None) \<longrightarrow>
                 (None, length (filter (\<lambda>e. user_id e = None) (events st))) \<in> set groups)"
proof -
  let ?coll = "events st"
  obtain rows where
    agg: "aggregate ?coll ''user_id'' 20 = take 20 rows"
    and dist: "distinct (map fst rows)"
    and keys: "set (map fst rows) = group_key ''user_id'' ` set ?coll"
    and cnt: "\<forall>g \<in> set rows. snd g = length (filter (\<lambda>e. group_key ''user_id'' e = fst g) ?coll)"
    and ord: "sorted_wrt (\<lambda>a b. snd b \<le> snd a) rows"
    using aggregate_rows [of ?coll "''user_id''" 20] by blast
  define groups where "groups = map (\<lambda>r. (str_opt (fst r), snd r)) rows"
  have rt: "opt_str (str_opt (fst r)) = fst r" if "r \<in> set rows" for r
  proof -
    from that have "fst r \<in> set (map fst rows)" by simp
    with keys obtain e :: event_doc where "fst r = opt_str (user_id e)"
      by (auto simp add: group_key_user_id)
    then show ?thesis by simp
  qed
  have reply: "ask_question st payload
                 = Inr (AnswerItems ''Events by user''
                      (map (\<lambda>r. plain_dict [(''user_id'', fst r), (''count'', VInt (int (snd r)))])
                           (take 20 rows)))"
    using assms agg by (simp add: ask_question_def Let_def collection_def)
  have "map (\<lambda>r. plain_dict [(''user_id'', fst r), (''count'', VInt (int (snd r)))]) (take 20 rows)
        = map (\<lambda>g. plain_dict [(''user_id'', opt_str (fst g)), (''count'', VInt (int (snd g)))])
              (take 20 groups)"
    unfolding groups_def take_map map_map comp_def
  proof (rule map_cong)
    fix r assume "r \<in> set (take 20 rows)"
    then have "r \<in> set rows" by (rule in_set_takeD)
    from rt [OF this]
    show "plain_dict [(''user_id'', fst r), (''count'', VInt (int (snd r)))]
          = plain_dict [(''user_id'', opt_str (fst (str_opt (fst r), snd r))),
                        (''count'', VInt (int (snd (str_opt (fst r), snd r))))]"
      by simp
  qed simp
  with reply have 1: "ask_question st payload
             = Inr (AnswerItems ''Events by user''
                      (map (\<lambda>g. plain_dict [(''user_id'', opt_str (fst g)),
                                             (''count'', VInt (int (snd g)))])
                           (take 20 groups)))"
    by simp
  have fsts: "map fst groups = map str_opt (map fst rows)"
    by (simp add: groups_def comp_def)
  have "inj_on str_opt (set (map fst rows))"
    unfolding keys by (rule inj_onI) (auto simp add: group_key_user_id)
  with dist have "distinct (map str_opt (map fst rows))"
    by (metis distinct_map)
  then have 2: "distinct (map fst groups)"
    by (simp only: fsts)
  have "set (map fst groups) = str_opt ` set (map fst rows)"
    by (simp only: fsts set_map)
  also have "\<dots> = str_opt ` group_key ''user_id'' ` set ?coll"
    by (simp only: keys)
  also have "\<dots> = user_id ` set ?coll"
    by (simp add: image_image group_key_user_id)
  finally have 3: "set (map fst groups) = user_id ` set ?coll" .
  have 4: "\<forall>g \<in> set groups. snd g = length (filter (\<lambda>e. user_id e = fst g) ?coll)"
  proof
    fix g assume "g \<in> set groups"
    then obtain r where r: "r \<in> set rows" and g: "g = (str_opt (fst r), snd r)"
      by (auto simp add: groups_def)
    from r cnt have "snd r = length (filter (\<lambda>e. opt_str (user_id e) = fst r) ?coll)"
      by (simp add: group_key_user_id)
    also have "\<dots> = length (filter (\<lambda>e. opt_str (user_id e) = opt_str (str_opt (fst r))) ?coll)"
      using rt [OF r] by simp
    finally show "snd g = length (filter (\<lambda>e. user_id e = fst g) ?coll)"
      using g by (simp add: opt_str_inj)
  qed
  have 5: "sorted_wrt (\<lambda>a b. snd b \<le> snd a) groups"
    using ord by (simp add: groups_def sorted_wrt_map)
  have 6: "(None, length (filter (\<lambda>e. user_id e = None) ?coll)) \<in> set groups"
    if "\<exists>e \<in> set ?coll. user_id e = None"
  proof -
    from that have "None \<in> user_id ` set ?coll" by force
    with 3 have "None \<in> fst ` set groups" by simp
    then obtain g where "g \<in> set groups" and "fst g = None" by force
    with 4 show ?thesis by (cases g) auto
  qed
  from 1 2 3 4 5 6 show ?thesis by blast
qed

theorem ask_by_user_groups_witness:
  "ask_question sample_store \<lparr> question = ''Events per USER'', event_filter = None \<rparr>
     = Inr (AnswerItems ''Events by user''
              [plain_dict [(''user_id'', VStr ''u1''), (''count'', VInt 2)],
               plain_dict [(''user_id'', VNull), (''count'', VInt 1)]])
   \<and> (\<exists>groups.
         ask_question sample_store \<lparr> question = ''Events per USER'', event_filter = None \<rparr>
           = Inr (AnswerItems ''Events by user''
                    (map (\<lambda>g. plain_dict [(''user_id'', opt_str (fst g)),
                                           (''count'', VInt (int (snd g)))])
                         (take 20 groups)))
         \<and> (None, 1) \<in> set groups)"
proof -
  let ?p = "\<lparr> question = ''Events per USER'', event_filter = None \<rparr>"
  have h1: "failure sample_store = None"
    by (simp add: sample_store_def)
  have h2: "\<not> (contains ''total'' (strip (lower (question ?p)))
              \<or> contains ''how many'' (strip (lower (question ?p)))
                \<and> (contains ''event'' (strip (lower (question ?p)))
                   \<or> truthy (event_filter ?p)))"
    by code_simp
  have h3: "contains ''by user'' (strip (lower (question ?p)))
           \<or> contains ''per user'' (strip (lower (question ?p)))"
    by code_simp
  have anon: "\<exists>e \<in> set (events sample_store). user_id e = None"
    by (simp add: sample_store_def)
  have n: "length (filter (\<lambda>e. user_id e = None) (events sample_store)) = 1"
    by (simp add: sample_store_def)
  from ask_by_user_groups [OF h1 h2 h3] anon n
  have a: "\<exists>groups.
         ask_question sample_store ?p
           = Inr (AnswerItems ''Events by user''
                    (map (\<lambda>g. plain_dict [(''user_id'', opt_str (fst g)),
                                           (''count'', VInt (int (snd g)))])
                         (take 20 groups)))
         \<and> (None, 1) \<in> set groups"
    by auto
  have b: "ask_question sample_store ?p
     = Inr (AnswerItems ''Events by user''
              [plain_dict [(''user_id'', VStr ''u1''), (''count'', VInt 2)],
               plain_dict [(''user_id'', VNull), (''count'', VInt 1)]])"
    by code_simp
  from a b show ?thesis by blast
qed

subsection \<open>The fallback\<close>

text \<open>
  The order of the timestamp keys: a document without a timestamp is below every other,
  and two timestamps compare as their instants on the UTC time line.
\<close>

lemma timestamp_key_le:
  "timestamp_key b \<le> timestamp_key a \<longleftrightarrow>
     (case timestamp b of
        None \<Rightarrow> True
      | Some tb \<Rightarrow> (case timestamp a of None \<Rightarrow> False | Some ta \<Rightarrow> utc_micros tb \<le> utc_micros ta))"
  by (simp add: timestamp_key_def split: option.splits)

lemma recent_item_projected:
  "recent_item (project [''event'', ''user_id'', ''timestamp''] (to_pydoc e)) = Inr (recent_view e)"
  by (cases "timestamp e")
     (simp_all add: recent_item_def project_def to_pydoc_def recent_view_def dict_get_def Let_def)

lemma for_each_recent:
  "for_each recent_item (map (project [''event'', ''user_id'', ''timestamp''] \<circ> to_pydoc) es)
     = Inr (map recent_view es)"
  by (induction es) (simp_all add: recent_item_projected)

text \<open>
  Claim C5. When none of the three rules applies, the empty question included, the reply
  on a reachable store is \<open>Showing recent events\<close> with the items of the 20 latest
  events (of all of them when there are fewer): the events are ordered by timestamp,
  latest first, no event left out is later than one returned, and an item holds the
  fields \<open>event\<close>, \<open>user_id\<close> and \<open>timestamp\<close>, the timestamp as its ISO string, and the
  identifier as the string \<open>id\<close>.
\<close>

theorem ask_fallback_recent:
  assumes "failure st = None"
      and "\<not> (contains ''total'' (strip (lower (question payload)))
              \<or> contains ''how many'' (strip (lower (question payload)))
                \<and> (contains ''event'' (strip (lower (question payload)))
                   \<or> truthy (event_filter payload)))"
      and "\<not> (contains ''by user'' (strip (lower (question payload)))
              \<or> contains ''per user'' (strip (lower (question payload))))"
      and "\<not> (contains ''by event'' (strip (lower (question payload)))
              \<or> contains ''per event'' (strip (lower (question payload)))
              \<or> contains ''events by name'' (strip (lower (question payload))))"
  shows "\<exists>es rest.
           ask_question st payload
             = Inr (AnswerItems ''Showing recent events'' (map recent_view es))
           \<and> length es = min 20 (length (events st))
           \<and> mset (events st) = mset es + mset rest
           \<and> sorted_wrt (\<lambda>a b. timestamp_key b \<le> timestamp_key a) es
           \<and> (\<forall>a \<in> set es. \<forall>b \<in> set rest. timestamp_key b \<le> timestamp_key a)"
proof -
  let ?sorted = "sort_desc timestamp_key (events st)"
  let ?es = "take 20 ?sorted"
  let ?rest = "drop 20 ?sorted"
  have ord: "sorted_wrt (\<lambda>a b. timestamp_key b \<le> timestamp_key a) ?sorted"
    by (rule sorted_sort_desc)
  have 1: "ask_question st payload
             = Inr (AnswerItems ''Showing recent events'' (map recent_view ?es))"
    using assms
    by (simp add: ask_question_def Let_def collection_def find_recent_def for_each_recent)
  have 2: "length ?es = min 20 (length (events st))"
    by (simp add: length_sort_desc min.commute)
  have "mset ?sorted = mset (?es @ ?rest)"
    by simp
  then have 3: "mset (events st) = mset ?es + mset ?rest"
    by (simp only: mset_sort_desc mset_append)
  from ord have 4: "sorted_wrt (\<lambda>a b. timestamp_key b \<le> timestamp_key a) ?es"
    by (rule sorted_wrt_take)
  from ord have 5: "\<forall>a \<in> set ?es. \<forall>b \<in> set ?rest. timestamp_key b \<le> timestamp_key a"
    by (rule take_drop_sorted_desc)
  from 1 2 3 4 5 show ?thesis by blast
qed

theorem ask_fallback_recent_witness:
  "ask_question sample_store \<lparr> question = [], event_filter = None \<rparr>
     = Inr (AnswerItems ''Showing recent events''
              [\<lparr> native_id = None,
                 entries = [(''event'', VStr ''signup''), (''user_id'', VNull),
                            (''timestamp'', VStr ''2024-03-05T07:08:11+00:00''),
                            (''id'', VStr ''000000000000000000000001'')] \<rparr>,
               \<lparr> native_id = None,
                 entries = [(''event'', VStr ''login''), (''user_id'', VStr ''u1''),
                            (''timestamp'', VStr ''2024-03-05T07:08:10+00:00''),
                            (''id'', VStr ''000000000000000000000002'')] \<rparr>,
               \<lparr> native_id = None,
                 entries = [(''event'', VStr ''signup''), (''user_id'', VStr ''u1''),
                            (''timestamp'', VStr ''2024-03-05T07:08:09+00:00''),
                            (''id'', VStr ''000000000000000000000000'')] \<rparr>])
   \<and> (\<exists>es. ask_question sample_store \<lparr> question = [], event_filter = None \<rparr>
               = Inr (AnswerItems ''Showing recent events'' (map recent_view es))
             \<and> length es = 3)"
proof -
  let ?p = "\<lparr> question = [], event_filter = None \<rparr>"
  have h1: "failure sample_store = None"
    by (simp add: sample_store_def)
  have h2: "\<not> (contains ''total'' (strip (lower (question ?p)))
              \<or> contains ''how many'' (strip (lower (question ?p)))
                \<and> (contains ''event'' (strip (lower (question ?p)))
                   \<or> truthy (event_filter ?p)))"
    by code_simp
  have h3: "\<not> (contains ''by user'' (strip (lower (question ?p)))
              \<or> contains ''per user'' (strip (lower (question ?p))))"
    by code_simp
  have h4: "\<not> (contains ''by event'' (strip (lower (question ?p)))
              \<or> contains ''per event'' (strip (lower (question ?p)))
              \<or> contains ''events by name'' (strip (lower (question ?p))))"
    by code_simp
  have n: "length (events sample_store) = 3"
    by (simp add: sample_store_def)
  from ask_fallback_recent [OF h1 h2 h3 h4] n
  have a: "\<exists>es. ask_question sample_store ?p
               = Inr (AnswerItems ''Showing recent events'' (map recent_view es))
             \<and> length es = 3"
    by auto
  have b: "ask_question sample_store ?p
     = Inr (AnswerItems ''Showing recent events''
              [\<lparr> native_id = None,
                 entries = [(''event'', VStr ''signup''), (''user_id'', VNull),
                            (''timestamp'', VStr ''2024-03-05T07:08:11+00:00''),
                            (''id'', VStr ''000000000000000000000001'')] \<rparr>,
               \<lparr> native_id = None,
                 entries = [(''event'', VStr ''login''), (''user_id'', VStr ''u1''),
                            (''timestamp'', VStr ''2024-03-05T07:08:10+00:00''),
                            (''id'', VStr ''000000000000000000000002'')] \<rparr>,
               \<lparr> native_id = None,
                 entries = [(''event'', VStr ''signup''), (''user_id'', VStr ''u1''),
                            (''timestamp'', VStr ''2024-03-05T07:08:09+00:00''),
                            (''id'', VStr ''000000000000000000000000'')] \<rparr>])"
    by code_simp
  from a b show ?thesis by blast
qed

subsection \<open>Normalization\<close>

lemma dict_get_dict_set:
  "dict_get (dict_set d k v) k' = (if k' = k then Some v else dict_get d k')"
  by (induction d) (auto simp add: dict_get_def)

lemma dict_get_iso_map:
  "dict_get (map (\<lambda>(k, v). (k, iso_value v)) d) k = map_option iso_value (dict_get d k)"
  by (simp add: dict_get_def map_of_map)

lemma iso_value_cases:
  "map_option iso_value x
     = (case x of None \<Rightarrow> None | Some (VDate t) \<Rightarrow> Some (VStr (isoformat t)) | Some v \<Rightarrow> Some v)"
  by (simp add: iso_value_def split: option.splits pyval.splits)

lemma normalize_normalized:
  assumes "native_id r = Some i"
  shows "normalized_from r (normalize r)"
  using assms
  by (simp add: normalized_from_def normalize_def dict_get_iso_map dict_get_dict_set
        iso_value_cases [symmetric])
     (simp add: iso_value_def)

lemma recent_view_normalized:
  "normalized_from (project [''event'', ''user_id'', ''timestamp''] (to_pydoc e)) (recent_view e)"
  by (cases "timestamp e"; cases "user_id e")
     (auto simp add: normalized_from_def project_def to_pydoc_def recent_view_def dict_get_def
        opt_str_def)

lemma get_documents_from_events:
  "get_documents st filt lim = Inr docs \<Longrightarrow> r \<in> set docs \<Longrightarrow> \<exists>e \<in> set (events st). r = to_pydoc e"
  by (auto simp add: get_documents_def split: option.splits dest!: in_set_takeD)

text \<open>
  Claim C7. Every document in a reply of \<open>list_events\<close> or \<open>query_events\<close> is the
  normalized form of a stored event's document, and every item of the fallback reply of
  \<open>ask_question\<close> is the normalized form of a stored event's projected document: no native
  identifier, the identifier as the string \<open>id\<close>, each top-level instant as its ISO
  string, every other field as it is. \<open>normalize\<close> does this to any document that has a
  native identifier, nested values included.
\<close>

theorem returned_documents_normalized:
  "(list_events st lim = Inr items \<or> query_events st qp = Inr items \<longrightarrow>
      (\<forall>d \<in> set items. \<exists>e \<in> set (events st). normalized_from (to_pydoc e) d))
   \<and> (ask_question st ap = Inr (AnswerItems ''Showing recent events'' items) \<longrightarrow>
        (\<forall>d \<in> set items. \<exists>e \<in> set (events st).
           normalized_from (project [''event'', ''user_id'', ''timestamp''] (to_pydoc e)) d))
   \<and> (\<forall>r i. native_id r = Some i \<longrightarrow> normalized_from r (normalize r))"
proof (intro conjI impI ballI allI)
  fix d
  assume a: "list_events st lim = Inr items \<or> query_events st qp = Inr items" and d: "d \<in> set items"
  from a obtain filt n docs where g: "get_documents st filt n = Inr docs" and i: "items = map normalize docs"
    by (auto simp add: list_events_def query_events_def boundary_def Let_def split: sum.splits)
  from d i obtain r where r: "r \<in> set docs" and dr: "d = normalize r"
    by auto
  from get_documents_from_events [OF g r] obtain e where e: "e \<in> set (events st)" and re: "r = to_pydoc e"
    by blast
  have "native_id (to_pydoc e) = Some (oid e)"
    by (simp add: to_pydoc_def)
  then have "normalized_from (to_pydoc e) (normalize (to_pydoc e))"
    by (rule normalize_normalized)
  with e dr re show "\<exists>e \<in> set (events st). normalized_from (to_pydoc e) d"
    by blast
next
  fix d
  assume a: "ask_question st ap = Inr (AnswerItems ''Showing recent events'' items)" and d: "d \<in> set items"
  from a have "items = map recent_view (take 20 (sort_desc timestamp_key (events st)))"
    by (auto simp add: ask_question_def Let_def collection_def boundary_def find_recent_def
          for_each_recent split: option.splits if_splits)
  with d obtain e where "e \<in> set (take 20 (sort_desc timestamp_key (events st)))" and de: "d = recent_view e"
    by auto
  then have "e \<in> set (events st)"
    by (auto dest!: in_set_takeD simp add: set_sort_desc)
  with de recent_view_normalized [of e]
  show "\<exists>e \<in> set (events st).
           normalized_from (project [''event'', ''user_id'', ''timestamp''] (to_pydoc e)) d"
    by blast
next
  fix r :: pydoc and i assume "native_id r = Some i"
  then show "normalized_from r (normalize r)"
    by (rule normalize_normalized)
qed

theorem returned_documents_normalized_witness:
  "list_events sample_store 1
     = Inr [\<lparr> native_id = None,
              entries = [(''event'', VStr ''signup''), (''user_id'', VStr ''u1''),
                         (''properties'', VDict []),
                         (''timestamp'', VStr ''2024-03-05T07:08:09+00:00''),
                         (''id'', VStr ''000000000000000000000000'')] \<rparr>]
   \<and> (\<exists>e \<in> set (events sample_store).
         normalized_from (to_pydoc e)
           \<lparr> native_id = None,
             entries = [(''event'', VStr ''signup''), (''user_id'', VStr ''u1''),
                        (''properties'', VDict []),
                        (''timestamp'', VStr ''2024-03-05T07:08:09+00:00''),
                        (''id'', VStr ''000000000000000000000000'')] \<rparr>)
   \<and> normalize \<lparr> native_id = Some (ObjectId 26),
                   entries = [(''seen'', VDate (sample_time 9)),
                              (''properties'', VDict [(''at'', VDate (sample_time 9))])] \<rparr>
       = \<lparr> native_id = None,
           entries = [(''seen'', VStr ''2024-03-05T07:08:09+00:00''),
                      (''properties'', VDict [(''at'', VDate (sample_time 9))]),
                      (''id'', VStr ''00000000000000000000001a'')] \<rparr>
   \<and> normalized_from
         \<lparr> native_id = Some (ObjectId 26),
           entries = [(''seen'', VDate (sample_time 9)),
                      (''properties'', VDict [(''at'', VDate (sample_time 9))])] \<rparr>
         \<lparr> native_id = None,
           entries = [(''seen'', VStr ''2024-03-05T07:08:09+00:00''),
                      (''properties'', VDict [(''at'', VDate (sample_time 9))]),
                      (''id'', VStr ''00000000000000000000001a'')] \<rparr>"
proof -
  let ?d = "\<lparr> native_id = None,
              entries = [(''event'', VStr ''signup''), (''user_id'', VStr ''u1''),
                         (''properties'', VDict []),
                         (''timestamp'', VStr ''2024-03-05T07:08:09+00:00''),
                         (''id'', VStr ''000000000000000000000000'')] \<rparr>"
  let ?r = "\<lparr> native_id = Some (ObjectId 26),
              entries = [(''seen'', VDate (sample_time 9)),
                         (''properties'', VDict [(''at'', VDate (sample_time 9))])] \<rparr>"
  let ?n = "\<lparr> native_id = None,
           entries = [(''seen'', VStr ''2024-03-05T07:08:09+00:00''),
                      (''properties'', VDict [(''at'', VDate (sample_time 9))]),
                      (''id'', VStr ''00000000000000000000001a'')] \<rparr>"
  note t = returned_documents_normalized
             [of sample_store 1 "[?d]" "QueryPayload None None"
                 "\<lparr> question = [], event_filter = None \<rparr>"]
  have l: "list_events sample_store 1 = Inr [?d]"
    by code_simp
  from t l have "\<forall>d \<in> set [?d]. \<exists>e \<in> set (events sample_store). normalized_from (to_pydoc e) d"
    by blast
  then have a: "\<exists>e \<in> set (events sample_store). normalized_from (to_pydoc e) ?d"
    by simp
  have n: "normalize ?r = ?n"
    by code_simp
  from t have "\<forall>r i. native_id r = Some i \<longrightarrow> normalized_from r (normalize r)"
    by blast
  then have "native_id ?r = Some (ObjectId 26) \<longrightarrow> normalized_from ?r (normalize ?r)"
    by blast
  then have "normalized_from ?r (normalize ?r)"
    by simp
  with n have b: "normalized_from ?r ?n"
    by simp
  from l a n b show ?thesis by blast
qed

end
